theory Spec2Isabelle
  imports Main "HOL-Library.Char_ord" "HOL-Library.List_Lexorder"
begin

section \<open>Identity resolver (feedUtils: getFeedItemId)\<close>

text \<open>
  A \<open>FeedVO\<close> has an optional backend id (\<open>id?: string | number\<close>, the field
  \<open>feedId\<close> here), a label object
  (\<open>{[key: string]: string}\<close>) and a time string. The label object is an association
  list in insertion order whose keys are unique, as the keys of an object are.
  A number is the integer it holds, for the safe integers (magnitude at most
  \<open>2^53 - 1\<close>): on these \<open>Number.prototype.toString\<close> is the plain decimal numeral
  that \<open>toString\<close> prints. Fractions and larger magnitudes, which JavaScript rounds
  or prints with an exponent, are not described by \<open>toString\<close>.
\<close>

datatype feed_id = IdNumber int | IdString string

record FeedVO =
  feedId :: "feed_id option"
  labels :: "(string \<times> string) list"
  time :: string

fun digitsOf :: "nat \<Rightarrow> string" where
  "digitsOf n =
     (if n < 10 then [char_of (48 + n)]
      else digitsOf (n div 10) @ [char_of (48 + n mod 10)])"

declare digitsOf.simps [simp del]

definition toString :: "int \<Rightarrow> string" where
  "toString i = (if i < 0 then CHR ''-'' # digitsOf (nat (- i)) else digitsOf (nat i))"

fun id_toString :: "feed_id \<Rightarrow> string" where
  "id_toString (IdNumber n) = toString n"
| "id_toString (IdString s) = s"

text \<open>\<open>Array.prototype.join\<close>.\<close>

fun join :: "string \<Rightarrow> string list \<Rightarrow> string" where
  "join sep [] = []"
| "join sep [x] = x"
| "join sep (x # y # ys) = x @ sep @ join sep (y # ys)"

text \<open>
  \<open>labels[key]\<close>: the value stored under a key; \<open>undefined\<close> prints as the text
  \<open>undefined\<close> in a template literal.
\<close>

definition label_at :: "(string \<times> string) list \<Rightarrow> string \<Rightarrow> string" where
  "label_at ls key = (case map_of ls key of Some v \<Rightarrow> v | None \<Rightarrow> ''undefined'')"

definition sortedKeys :: "(string \<times> string) list \<Rightarrow> string list" where
  "sortedKeys ls = sort (map fst ls)"

definition combinedString :: "(string \<times> string) list \<Rightarrow> string" where
  "combinedString ls = join ''&'' (map (\<lambda>key. key @ ''='' @ label_at ls key) (sortedKeys ls))"

text \<open>
  \<open>simpleHash\<close> lives in hashUtils, which is not part of the sources at hand: it is
  a parameter of the resolver, any function from strings to numbers.
\<close>

definition getFeedItemId :: "(string \<Rightarrow> int) \<Rightarrow> FeedVO \<Rightarrow> string" where
  "getFeedItemId simpleHash feed =
     (case feedId feed of
        Some i \<Rightarrow> id_toString i
      | None \<Rightarrow> toString (simpleHash (combinedString (labels feed))))"

section \<open>The browser environment and the store's state\<close>

definition SYNC_INTERVAL :: int where
  "SYNC_INTERVAL = 30 * 60 * 1000"

text \<open>JSON values, as \<open>JSON.parse\<close> returns them (numbers are integers here).\<close>

datatype json =
    JNull
  | JBool bool
  | JNum int
  | JStr string
  | JArr "json list"
  | JObj "(string \<times> json) list"

text \<open>
  The text held under \<open>zenfeed_read_feeds\<close>, seen through \<open>JSON.parse\<close>: either text
  on which \<open>JSON.parse\<close> throws, or the text of a JSON value. The empty string is
  \<open>Unparseable []\<close>; it is the only falsy text.
\<close>

datatype stored_text = Unparseable string | Json json

fun truthy :: "stored_text \<Rightarrow> bool" where
  "truthy (Unparseable s) = (s \<noteq> [])"
| "truthy (Json j) = True"

text \<open>
  The text held under \<open>zenfeed_read_sync_timestamp\<close>, seen through \<open>!lastSync\<close> and
  \<open>Number(lastSync)\<close>: the empty string, text that \<open>Number\<close> reads as a number, or
  text that it reads as \<open>NaN\<close>.
\<close>

datatype ts_text = TsEmpty | TsNumber int | TsNaN

datatype level = Warn | Error

datatype request = GET string | POST string string

text \<open>What an awaited backend call does: it throws, or it returns \<open>data.read_status\<close>.\<close>

datatype response = Throws | Status string

text \<open>
  The state: the environment (whether \<open>window\<close> and \<open>localStorage\<close> are defined,
  whether \<open>localStorage.setItem\<close> throws, the two storage slots, the clock read by
  \<open>Date.now()\<close>), the writable store's map (a JavaScript \<open>Map\<close> in insertion order),
  the \<open>syncQueue\<close> (a \<open>Set\<close> in insertion order), and two traces: what was printed
  on the console and which backend requests were issued.
\<close>

record store =
  hasWindow :: bool
  hasLocalStorage :: bool
  setItemThrows :: bool
  readItemsSlot :: "stored_text option"
  syncTimestampSlot :: "ts_text option"
  now :: int
  readItems :: "(json \<times> json) list"
  syncQueue :: "string list"
  console :: "(level \<times> string) list"
  requests :: "request list"

subsection \<open>Map and Set\<close>

text \<open>
  \<open>Map\<close> compares keys with SameValueZero: primitives by value, arrays and objects by
  identity; the arrays and objects of a parsed text are all distinct objects.
\<close>

fun sameValueZero :: "json \<Rightarrow> json \<Rightarrow> bool" where
  "sameValueZero (JArr xs) k = False"
| "sameValueZero (JObj xs) k = False"
| "sameValueZero k' k = (k' = k)"

fun map_set :: "json \<Rightarrow> json \<Rightarrow> (json \<times> json) list \<Rightarrow> (json \<times> json) list" where
  "map_set k v [] = [(k, v)]"
| "map_set k v ((k', v') # m) =
     (if sameValueZero k' k then (k', v) # m else (k', v') # map_set k v m)"

definition map_has :: "(json \<times> json) list \<Rightarrow> string \<Rightarrow> bool" where
  "map_has m itemId = (JStr itemId \<in> set (map fst m))"

definition map_delete :: "string \<Rightarrow> (json \<times> json) list \<Rightarrow> (json \<times> json) list" where
  "map_delete itemId m = filter (\<lambda>e. fst e \<noteq> JStr itemId) m"

text \<open>\<open>new Map(parsedArray)\<close>, for an array of 2-element arrays.\<close>

definition new_Map :: "json list \<Rightarrow> (json \<times> json) list" where
  "new_Map pairs =
     foldl (\<lambda>m pair. case pair of JArr [k, v] \<Rightarrow> map_set k v m | _ \<Rightarrow> m) [] pairs"

text \<open>\<open>Array.from(map.entries())\<close>, as \<open>JSON.stringify\<close> writes it.\<close>

definition storableArray :: "(json \<times> json) list \<Rightarrow> json" where
  "storableArray m = JArr (map (\<lambda>e. JArr [fst e, snd e]) m)"

definition set_add :: "string \<Rightarrow> string list \<Rightarrow> string list" where
  "set_add x xs = (if x \<in> set xs then xs else xs @ [x])"

subsection \<open>createReadItemsStore: loading\<close>

definition valid_format :: "json \<Rightarrow> bool" where
  "valid_format parsedArray =
     (case parsedArray of
        JArr pairs \<Rightarrow> list_all (\<lambda>pair. case pair of JArr xs \<Rightarrow> length xs = 2 | _ \<Rightarrow> False) pairs
      | _ \<Rightarrow> False)"

definition console_log :: "level \<Rightarrow> string \<Rightarrow> store \<Rightarrow> store" where
  "console_log l msg s = s\<lparr>console := console s @ [(l, msg)]\<rparr>"

definition createReadItemsStore :: "store \<Rightarrow> store" where
  "createReadItemsStore e =
     (let s = e\<lparr>readItems := [], syncQueue := []\<rparr> in
      if hasWindow s \<and> hasLocalStorage s then
        (case readItemsSlot s of
           None \<Rightarrow> s
         | Some storedData \<Rightarrow>
             if truthy storedData then
               (case storedData of
                  Unparseable t \<Rightarrow>
                    (console_log Error ''Failed to load/parse read items from localStorage:'' s)
                      \<lparr>readItemsSlot := None\<rparr>
                | Json parsedArray \<Rightarrow>
                    if valid_format parsedArray then
                      (case parsedArray of JArr pairs \<Rightarrow> s\<lparr>readItems := new_Map pairs\<rparr> | _ \<Rightarrow> s)
                    else
                      (console_log Warn ''Invalid read items format in localStorage. Clearing.'' s)
                        \<lparr>readItemsSlot := None\<rparr>)
             else s)
      else s)"

subsection \<open>Local state\<close>

definition saveToLocalStorage :: "(json \<times> json) list \<Rightarrow> store \<Rightarrow> store" where
  "saveToLocalStorage m s =
     (if hasWindow s \<and> hasLocalStorage s then
        (if setItemThrows s then console_log Error ''Failed to save read items to localStorage:'' s
         else s\<lparr>readItemsSlot := Some (Json (storableArray m))\<rparr>)
      else s)"

definition updateLocalState :: "string \<Rightarrow> bool \<Rightarrow> store \<Rightarrow> store" where
  "updateLocalState itemId isRead s =
     (let currentMap = readItems s;
          newMap =
            (if isRead \<and> \<not> map_has currentMap itemId then
               map_set (JStr itemId) (JNum (now s)) currentMap
             else if \<not> isRead \<and> map_has currentMap itemId then
               map_delete itemId currentMap
             else currentMap)
      in (saveToLocalStorage newMap s)\<lparr>readItems := newMap\<rparr>)"

definition shouldSync :: "store \<Rightarrow> bool" where
  "shouldSync s =
     (if \<not> hasWindow s \<or> \<not> hasLocalStorage s then False
      else case syncTimestampSlot s of
             None \<Rightarrow> True
           | Some TsEmpty \<Rightarrow> True
           | Some (TsNumber lastSync) \<Rightarrow> now s - lastSync > SYNC_INTERVAL
           | Some TsNaN \<Rightarrow> False)"

text \<open>\<open>updateSyncTimestamp\<close> has no handler of its own: \<open>None\<close> is \<open>setItem\<close> throwing.\<close>

definition updateSyncTimestamp :: "store \<Rightarrow> store option" where
  "updateSyncTimestamp s =
     (if hasLocalStorage s then
        (if setItemThrows s then None
         else Some (s\<lparr>syncTimestampSlot := Some (TsNumber (now s))\<rparr>))
      else Some s)"

subsection \<open>Backend calls\<close>

text \<open>
  An awaited backend call is answered by the environment: after some delay (in
  milliseconds, during which the clock advances) it throws or returns a status.
  Synchronous code runs at one reading of the clock.
\<close>

type_synonym getFeedReadStatus = "string \<Rightarrow> nat \<times> response"
type_synonym updateFeedReadStatus = "string \<Rightarrow> string \<Rightarrow> nat \<times> response"

definition await :: "nat \<Rightarrow> store \<Rightarrow> store" where
  "await d s = s\<lparr>now := now s + int d\<rparr>"

definition request :: "request \<Rightarrow> store \<Rightarrow> store" where
  "request r s = s\<lparr>requests := requests s @ [r]\<rparr>"

subsection \<open>syncWithBackend and processSyncQueue\<close>

definition syncWithBackend_catch :: "string \<Rightarrow> store \<Rightarrow> store" where
  "syncWithBackend_catch itemId s =
     (console_log Error ''Failed to sync read status with backend:'' s)
       \<lparr>syncQueue := set_add itemId (syncQueue s)\<rparr>"

text \<open>What \<open>syncWithBackend\<close> does once \<open>getFeedReadStatus\<close> has answered.\<close>

definition syncWithBackend_resolve :: "string \<Rightarrow> response \<Rightarrow> store \<Rightarrow> store" where
  "syncWithBackend_resolve itemId r s =
     (case r of
        Throws \<Rightarrow> syncWithBackend_catch itemId s
      | Status status \<Rightarrow>
          (let s1 = (if status = ''read'' then updateLocalState itemId True s
                     else if status = ''unread'' then updateLocalState itemId False s
                     else s)
           in case updateSyncTimestamp s1 of
                None \<Rightarrow> syncWithBackend_catch itemId s1
              | Some s2 \<Rightarrow> s2))"

text \<open>
  The whole body of \<open>syncWithBackend\<close> is inside its \<open>try\<close>, and its handler does
  not throw: the function always returns normally.
\<close>

definition syncWithBackend :: "getFeedReadStatus \<Rightarrow> string \<Rightarrow> store \<Rightarrow> store" where
  "syncWithBackend backend itemId s =
     (if \<not> shouldSync s then s
      else case backend itemId of
             (d, r) \<Rightarrow> syncWithBackend_resolve itemId r (await d (request (GET itemId) s)))"

text \<open>
  \<open>syncWithBackend\<close> up to its \<open>await\<close>, for runs in which other operations start
  before the backend has answered: \<open>None\<close> when the throttle makes it return at once,
  otherwise the state with the request issued.
\<close>

definition syncWithBackend_begin :: "string \<Rightarrow> store \<Rightarrow> store option" where
  "syncWithBackend_begin itemId s =
     (if \<not> shouldSync s then None else Some (request (GET itemId) s))"

text \<open>
  \<open>processSyncQueue\<close>, which is also the timer's tick and \<open>syncAll\<close>: copy the
  queue, clear it, and sync the copied ids in order. Its own handler is never entered,
  since \<open>syncWithBackend\<close> does not throw. A drain is taken as a whole: no other
  operation of the store runs between its steps.
\<close>

definition processSyncQueue :: "getFeedReadStatus \<Rightarrow> store \<Rightarrow> store" where
  "processSyncQueue backend s =
     (let itemsToSync = syncQueue s
      in fold (syncWithBackend backend) itemsToSync (s\<lparr>syncQueue := []\<rparr>))"

text \<open>
  The state a drain has reached when the turn of \<open>itemId\<close> comes: the queue is
  cleared and the ids queued before it have been synced.
\<close>

definition stateAtTurn :: "getFeedReadStatus \<Rightarrow> string \<Rightarrow> store \<Rightarrow> store" where
  "stateAtTurn backend itemId s =
     fold (syncWithBackend backend) (takeWhile (\<lambda>j. j \<noteq> itemId) (syncQueue s))
       (s\<lparr>syncQueue := []\<rparr>)"

subsection \<open>The store's operations\<close>

datatype itemIdOrFeed = ItemId string | Feed FeedVO

fun itemIdOf :: "(string \<Rightarrow> int) \<Rightarrow> itemIdOrFeed \<Rightarrow> string" where
  "itemIdOf simpleHash (ItemId s) = s"
| "itemIdOf simpleHash (Feed feed) = getFeedItemId simpleHash feed"

text \<open>
  \<open>markRead\<close> up to its \<open>await\<close> (the local update and the request), and from the
  answer on; \<open>markRead\<close> itself is the two with nothing in between.
\<close>

definition markRead_begin :: "string \<Rightarrow> store \<Rightarrow> store" where
  "markRead_begin itemId s = request (POST itemId ''read'') (updateLocalState itemId True s)"

definition markRead_resolve :: "string \<Rightarrow> response \<Rightarrow> store \<Rightarrow> store" where
  "markRead_resolve itemId r s =
     (case r of
        Status status \<Rightarrow> if status \<noteq> ''read'' then updateLocalState itemId False s else s
      | Throws \<Rightarrow>
          (console_log Error ''Failed to mark item as read in backend:'' s)
            \<lparr>syncQueue := set_add itemId (syncQueue s)\<rparr>)"

definition markRead ::
  "(string \<Rightarrow> int) \<Rightarrow> updateFeedReadStatus \<Rightarrow> itemIdOrFeed \<Rightarrow> store \<Rightarrow> store" where
  "markRead simpleHash backend itemIdOrFeed s =
     (let itemId = itemIdOf simpleHash itemIdOrFeed
      in case backend itemId ''read'' of
           (d, r) \<Rightarrow> markRead_resolve itemId r (await d (markRead_begin itemId s)))"

definition markUnread_begin :: "string \<Rightarrow> store \<Rightarrow> store" where
  "markUnread_begin itemId s = request (POST itemId ''unread'') (updateLocalState itemId False s)"

definition markUnread_resolve :: "string \<Rightarrow> response \<Rightarrow> store \<Rightarrow> store" where
  "markUnread_resolve itemId r s =
     (case r of
        Status status \<Rightarrow> if status \<noteq> ''unread'' then updateLocalState itemId True s else s
      | Throws \<Rightarrow>
          (console_log Error ''Failed to mark item as unread in backend:'' s)
            \<lparr>syncQueue := set_add itemId (syncQueue s)\<rparr>)"

definition markUnread ::
  "(string \<Rightarrow> int) \<Rightarrow> updateFeedReadStatus \<Rightarrow> itemIdOrFeed \<Rightarrow> store \<Rightarrow> store" where
  "markUnread simpleHash backend itemIdOrFeed s =
     (let itemId = itemIdOf simpleHash itemIdOrFeed
      in case backend itemId ''unread'' of
           (d, r) \<Rightarrow> markUnread_resolve itemId r (await d (markUnread_begin itemId s)))"

definition sync :: "getFeedReadStatus \<Rightarrow> string \<Rightarrow> store \<Rightarrow> store" where
  "sync backend itemId s = syncWithBackend backend itemId s"

definition isRead :: "(string \<Rightarrow> int) \<Rightarrow> itemIdOrFeed \<Rightarrow> (json \<times> json) list \<Rightarrow> bool" where
  "isRead simpleHash itemIdOrFeed currentMap = map_has currentMap (itemIdOf simpleHash itemIdOrFeed)"

definition reset :: "store \<Rightarrow> store" where
  "reset s =
     (let s1 = s\<lparr>readItems := []\<rparr>;
          s2 = (if hasWindow s1 \<and> hasLocalStorage s1
                then s1\<lparr>readItemsSlot := None, syncTimestampSlot := None\<rparr> else s1)
      in s2\<lparr>syncQueue := []\<rparr>)"

definition syncAll :: "getFeedReadStatus \<Rightarrow> store \<Rightarrow> store" where
  "syncAll backend s = processSyncQueue backend s"

section \<open>The resolver as the specification words it\<close>

text \<open>
  The specification's label mapping has unique keys and no order: a finite map. Its
  canonical string joins \<open>key=value\<close> with \<open>&\<close> over the keys in lexicographic order,
  and the id is the decimal string of the hash of that string, unless the backend gave
  an id.
\<close>

definition spec_canonicalString :: "(string \<rightharpoonup> string) \<Rightarrow> string" where
  "spec_canonicalString m =
     join ''&'' (map (\<lambda>k. k @ ''='' @ the (m k)) (sorted_list_of_set (dom m)))"

definition spec_resolveId :: "(string \<Rightarrow> int) \<Rightarrow> feed_id option \<Rightarrow> (string \<rightharpoonup> string) \<Rightarrow> string" where
  "spec_resolveId hash backendId m =
     (case backendId of
        Some i \<Rightarrow> id_toString i
      | None \<Rightarrow> toString (hash (spec_canonicalString m)))"

section \<open>Concrete stores and backends\<close>

text \<open>A store just created in a browser whose storage is empty.\<close>

definition browserStore :: store where
  "browserStore =
     \<lparr>hasWindow = True, hasLocalStorage = True, setItemThrows = False,
      readItemsSlot = None, syncTimestampSlot = None, now = 1700000000000,
      readItems = [], syncQueue = [], console = [], requests = []\<rparr>"

text \<open>Backends that give every call the same answer after the same delay.\<close>

definition getAnswers :: "nat \<Rightarrow> response \<Rightarrow> getFeedReadStatus" where
  "getAnswers d r = (\<lambda>itemId. (d, r))"

definition postAnswers :: "nat \<Rightarrow> response \<Rightarrow> updateFeedReadStatus" where
  "postAnswers d r = (\<lambda>itemId newStatus. (d, r))"

text \<open>A hash to run the resolver with: the length of the string.\<close>

definition lengthHash :: "string \<Rightarrow> int" where
  "lengthHash s = int (length s)"

section \<open>Properties\<close>

subsection \<open>Auxiliary facts\<close>

lemma updateLocalState_env [simp]:
  "hasWindow (updateLocalState i b s) = hasWindow s"
  "hasLocalStorage (updateLocalState i b s) = hasLocalStorage s"
  "setItemThrows (updateLocalState i b s) = setItemThrows s"
  "syncTimestampSlot (updateLocalState i b s) = syncTimestampSlot s"
  "now (updateLocalState i b s) = now s"
  "syncQueue (updateLocalState i b s) = syncQueue s"
  "requests (updateLocalState i b s) = requests s"
  by (simp_all add: updateLocalState_def saveToLocalStorage_def console_log_def Let_def)

lemma sameValueZero_JStr [simp]: "sameValueZero a (JStr i) = (a = JStr i)"
  by (cases a) simp_all

lemma keys_map_set:
  "map fst (map_set (JStr i) v m) =
     (if JStr i \<in> set (map fst m) then map fst m else map fst m @ [JStr i])"
  by (induction m) (auto split: if_splits)

lemma map_has_map_set: "map_has (map_set (JStr i) v m) i"
  unfolding map_has_def keys_map_set by simp

lemma map_has_map_delete: "\<not> map_has (map_delete i m) i"
  by (auto simp: map_has_def map_delete_def)

lemma readItems_updateLocalState:
  "readItems (updateLocalState i b s) =
     (if b \<and> \<not> map_has (readItems s) i then map_set (JStr i) (JNum (now s)) (readItems s)
      else if \<not> b \<and> map_has (readItems s) i then map_delete i (readItems s)
      else readItems s)"
  by (simp add: updateLocalState_def saveToLocalStorage_def console_log_def Let_def)

lemma map_has_updateLocalState [simp]: "map_has (readItems (updateLocalState i b s)) i = b"
  by (simp add: readItems_updateLocalState map_has_map_set map_has_map_delete)

lemma readItemsSlot_updateLocalState:
  "hasWindow s \<Longrightarrow> hasLocalStorage s \<Longrightarrow> \<not> setItemThrows s \<Longrightarrow>
   readItemsSlot (updateLocalState i b s) = Some (Json (storableArray (readItems (updateLocalState i b s))))"
  by (simp add: updateLocalState_def saveToLocalStorage_def console_log_def Let_def)


lemma await_fields [simp]:
  "hasWindow (await d s) = hasWindow s"
  "hasLocalStorage (await d s) = hasLocalStorage s"
  "setItemThrows (await d s) = setItemThrows s"
  "syncTimestampSlot (await d s) = syncTimestampSlot s"
  "readItemsSlot (await d s) = readItemsSlot s"
  "now (await d s) = now s + int d"
  "readItems (await d s) = readItems s"
  "syncQueue (await d s) = syncQueue s"
  "requests (await d s) = requests s"
  "console (await d s) = console s"
  by (simp_all add: await_def)

lemma request_fields [simp]:
  "hasWindow (request r s) = hasWindow s"
  "hasLocalStorage (request r s) = hasLocalStorage s"
  "setItemThrows (request r s) = setItemThrows s"
  "syncTimestampSlot (request r s) = syncTimestampSlot s"
  "readItemsSlot (request r s) = readItemsSlot s"
  "now (request r s) = now s"
  "readItems (request r s) = readItems s"
  "syncQueue (request r s) = syncQueue s"
  "requests (request r s) = requests s @ [r]"
  "console (request r s) = console s"
  by (simp_all add: request_def)

lemma syncWithBackend_catch_fields [simp]:
  "hasWindow (syncWithBackend_catch i s) = hasWindow s"
  "hasLocalStorage (syncWithBackend_catch i s) = hasLocalStorage s"
  "setItemThrows (syncWithBackend_catch i s) = setItemThrows s"
  "syncTimestampSlot (syncWithBackend_catch i s) = syncTimestampSlot s"
  "readItemsSlot (syncWithBackend_catch i s) = readItemsSlot s"
  "now (syncWithBackend_catch i s) = now s"
  "readItems (syncWithBackend_catch i s) = readItems s"
  "syncQueue (syncWithBackend_catch i s) = set_add i (syncQueue s)"
  "requests (syncWithBackend_catch i s) = requests s"
  by (simp_all add: syncWithBackend_catch_def console_log_def)

lemma syncWithBackend_resolve_env [simp]:
  "hasWindow (syncWithBackend_resolve i r s) = hasWindow s"
  "hasLocalStorage (syncWithBackend_resolve i r s) = hasLocalStorage s"
  "setItemThrows (syncWithBackend_resolve i r s) = setItemThrows s"
  "requests (syncWithBackend_resolve i r s) = requests s"
  by (auto simp: syncWithBackend_resolve_def updateSyncTimestamp_def Let_def split: response.splits)

lemma syncWithBackend_env [simp]:
  "hasWindow (syncWithBackend backend i s) = hasWindow s"
  "hasLocalStorage (syncWithBackend backend i s) = hasLocalStorage s"
  "setItemThrows (syncWithBackend backend i s) = setItemThrows s"
  by (auto simp: syncWithBackend_def split: prod.splits)

lemma requests_syncWithBackend:
  "requests (syncWithBackend backend i s) = requests s @ (if shouldSync s then [GET i] else [])"
  by (auto simp: syncWithBackend_def split: prod.splits)

lemma set_set_add [simp]: "set (set_add x xs) = insert x (set xs)"
  by (auto simp: set_add_def)

lemma distinct_set_add [simp]: "distinct (set_add x xs) = distinct xs"
  by (auto simp: set_add_def)

lemma syncQueue_syncWithBackend_resolve:
  "syncQueue (syncWithBackend_resolve i r s) =
     (if r = Throws \<or> hasLocalStorage s \<and> setItemThrows s then set_add i (syncQueue s)
      else syncQueue s)"
  by (auto simp: syncWithBackend_resolve_def updateSyncTimestamp_def Let_def split: response.splits)

lemma syncQueue_syncWithBackend:
  "syncQueue (syncWithBackend backend i s) =
     (if shouldSync s \<and> (snd (backend i) = Throws \<or> setItemThrows s)
      then set_add i (syncQueue s) else syncQueue s)"
  by (auto simp: syncWithBackend_def syncQueue_syncWithBackend_resolve shouldSync_def split: prod.splits)

lemma fold_sync_env [simp]:
  "hasWindow (fold (syncWithBackend backend) xs s) = hasWindow s"
  "hasLocalStorage (fold (syncWithBackend backend) xs s) = hasLocalStorage s"
  "setItemThrows (fold (syncWithBackend backend) xs s) = setItemThrows s"
  by (induction xs arbitrary: s) simp_all

lemma requests_fold_sync_subset:
  "set (requests (fold (syncWithBackend backend) xs s)) \<subseteq> set (requests s) \<union> GET ` set xs"
proof (induction xs arbitrary: s)
  case Nil
  show ?case by simp
next
  case (Cons a xs)
  have "set (requests (fold (syncWithBackend backend) xs (syncWithBackend backend a s)))
          \<subseteq> set (requests (syncWithBackend backend a s)) \<union> GET ` set xs"
    by (rule Cons.IH)
  moreover have "set (requests (syncWithBackend backend a s)) \<subseteq> insert (GET a) (set (requests s))"
    by (auto simp: requests_syncWithBackend)
  ultimately show ?case by auto
qed

lemma requests_fold_sync_mono:
  "set (requests s) \<subseteq> set (requests (fold (syncWithBackend backend) xs s))"
proof (induction xs arbitrary: s)
  case Nil
  show ?case by simp
next
  case (Cons a xs)
  have "set (requests (syncWithBackend backend a s))
          \<subseteq> set (requests (fold (syncWithBackend backend) xs (syncWithBackend backend a s)))"
    by (rule Cons.IH)
  moreover have "set (requests s) \<subseteq> set (requests (syncWithBackend backend a s))"
    by (auto simp: requests_syncWithBackend)
  ultimately show ?case by auto
qed



lemma markRead_begin_fields [simp]:
  "hasWindow (markRead_begin i s) = hasWindow s"
  "hasLocalStorage (markRead_begin i s) = hasLocalStorage s"
  "setItemThrows (markRead_begin i s) = setItemThrows s"
  "syncQueue (markRead_begin i s) = syncQueue s"
  "now (markRead_begin i s) = now s"
  "readItems (markRead_begin i s) = readItems (updateLocalState i True s)"
  "readItemsSlot (markRead_begin i s) = readItemsSlot (updateLocalState i True s)"
  "requests (markRead_begin i s) = requests s @ [POST i ''read'']"
  by (simp_all add: markRead_begin_def)

lemma markUnread_begin_fields [simp]:
  "hasWindow (markUnread_begin i s) = hasWindow s"
  "hasLocalStorage (markUnread_begin i s) = hasLocalStorage s"
  "setItemThrows (markUnread_begin i s) = setItemThrows s"
  "syncQueue (markUnread_begin i s) = syncQueue s"
  "now (markUnread_begin i s) = now s"
  "readItems (markUnread_begin i s) = readItems (updateLocalState i False s)"
  "readItemsSlot (markUnread_begin i s) = readItemsSlot (updateLocalState i False s)"
  "requests (markUnread_begin i s) = requests s @ [POST i ''unread'']"
  by (simp_all add: markUnread_begin_def)

text \<open>
  C10. The local mark operations are idempotent on the in-memory map: marking read an
  id that is already present leaves the map unchanged, so the read timestamp recorded
  first is kept, and marking unread an id that is absent leaves the map unchanged.
\<close>

theorem updateLocalState_idempotent:
  "(map_has (readItems s) itemId \<longrightarrow> readItems (updateLocalState itemId True s) = readItems s) \<and>
   (\<not> map_has (readItems s) itemId \<longrightarrow> readItems (updateLocalState itemId False s) = readItems s)"
  by (simp add: readItems_updateLocalState)

theorem updateLocalState_idempotent_witness:
  "map_has (readItems (browserStore\<lparr>readItems := [(JStr ''42'', JNum 7)]\<rparr>)) ''42'' \<and>
   readItems (updateLocalState ''42'' True (browserStore\<lparr>readItems := [(JStr ''42'', JNum 7)]\<rparr>))
     = [(JStr ''42'', JNum 7)] \<and>
   \<not> map_has (readItems browserStore) ''42'' \<and>
   readItems (updateLocalState ''42'' False browserStore) = []"
  using updateLocalState_idempotent [of "browserStore\<lparr>readItems := [(JStr ''42'', JNum 7)]\<rparr>" "''42''"]
        updateLocalState_idempotent [of browserStore "''42''"]
  by (simp add: map_has_def browserStore_def)

text \<open>
  C6. \<open>markRead\<close> applies the change before any backend response is observed: right
  after the synchronous part of \<open>markRead\<close>, \<open>isRead\<close> is true for the id on the
  current map, and, where \<open>window\<close> and \<open>localStorage\<close> exist and the write is
  accepted, the read-items slot holds the whole map.
\<close>

theorem markRead_optimistic:
  "isRead simpleHash itemIdOrFeed
     (readItems (markRead_begin (itemIdOf simpleHash itemIdOrFeed) s)) \<and>
   (hasWindow s \<and> hasLocalStorage s \<and> \<not> setItemThrows s \<longrightarrow>
      readItemsSlot (markRead_begin (itemIdOf simpleHash itemIdOrFeed) s) =
        Some (Json (storableArray (readItems (markRead_begin (itemIdOf simpleHash itemIdOrFeed) s)))))"
  by (simp add: isRead_def readItemsSlot_updateLocalState)

theorem markRead_optimistic_witness:
  "hasWindow browserStore \<and> hasLocalStorage browserStore \<and> \<not> setItemThrows browserStore \<and>
   isRead lengthHash (ItemId ''42'') (readItems (markRead_begin ''42'' browserStore)) \<and>
   readItemsSlot (markRead_begin ''42'' browserStore) =
     Some (Json (JArr [JArr [JStr ''42'', JNum 1700000000000]]))"
  using markRead_optimistic [of lengthHash "ItemId ''42''" browserStore]
  by (simp add: browserStore_def readItems_updateLocalState map_has_def storableArray_def)


lemma resolve_Throws_readItems:
  "readItems (markRead_resolve i Throws s) = readItems s"
  "readItems (markUnread_resolve i Throws s) = readItems s"
  by (simp_all add: markRead_resolve_def markUnread_resolve_def console_log_def)

lemma resolve_rollback:
  "st \<noteq> ''read'' \<Longrightarrow> markRead_resolve i (Status st) s = updateLocalState i False s"
  "st \<noteq> ''unread'' \<Longrightarrow> markUnread_resolve i (Status st) s = updateLocalState i True s"
  by (simp_all add: markRead_resolve_def markUnread_resolve_def)

lemma resolve_confirmed:
  "markRead_resolve i (Status ''read'') s = s"
  "markUnread_resolve i (Status ''unread'') s = s"
  by (simp_all add: markRead_resolve_def markUnread_resolve_def)

lemma markRead_unfold:
  "markRead simpleHash backend a s =
     markRead_resolve (itemIdOf simpleHash a) (snd (backend (itemIdOf simpleHash a) ''read''))
       (await (fst (backend (itemIdOf simpleHash a) ''read'')) (markRead_begin (itemIdOf simpleHash a) s))"
  by (simp add: markRead_def Let_def split: prod.splits)

lemma markUnread_unfold:
  "markUnread simpleHash backend a s =
     markUnread_resolve (itemIdOf simpleHash a) (snd (backend (itemIdOf simpleHash a) ''unread''))
       (await (fst (backend (itemIdOf simpleHash a) ''unread'')) (markUnread_begin (itemIdOf simpleHash a) s))"
  by (simp add: markUnread_def Let_def split: prod.splits)

text \<open>
  C4. When the push of \<open>markRead\<close> resolves with a status other than \<open>read\<close>, the id
  is unread in the final map, the slot holds that map (where \<open>window\<close> and
  \<open>localStorage\<close> exist and the write is accepted), and the retry queue is as it was:
  the id is not added. Symmetrically for \<open>markUnread\<close> and a status other than
  \<open>unread\<close>, after which the id is read.
\<close>

theorem rejected_push_rolls_back:
  "(backend (itemIdOf simpleHash itemIdOrFeed) ''read'' = (d, Status status) \<and> status \<noteq> ''read'' \<longrightarrow>
      \<not> isRead simpleHash itemIdOrFeed (readItems (markRead simpleHash backend itemIdOrFeed s)) \<and>
      syncQueue (markRead simpleHash backend itemIdOrFeed s) = syncQueue s \<and>
      (hasWindow s \<and> hasLocalStorage s \<and> \<not> setItemThrows s \<longrightarrow>
         readItemsSlot (markRead simpleHash backend itemIdOrFeed s) =
           Some (Json (storableArray (readItems (markRead simpleHash backend itemIdOrFeed s)))))) \<and>
   (backend (itemIdOf simpleHash itemIdOrFeed) ''unread'' = (d, Status status) \<and> status \<noteq> ''unread'' \<longrightarrow>
      isRead simpleHash itemIdOrFeed (readItems (markUnread simpleHash backend itemIdOrFeed s)) \<and>
      syncQueue (markUnread simpleHash backend itemIdOrFeed s) = syncQueue s \<and>
      (hasWindow s \<and> hasLocalStorage s \<and> \<not> setItemThrows s \<longrightarrow>
         readItemsSlot (markUnread simpleHash backend itemIdOrFeed s) =
           Some (Json (storableArray (readItems (markUnread simpleHash backend itemIdOrFeed s))))))"
  by (simp add: markRead_unfold markUnread_unfold isRead_def resolve_rollback
        readItemsSlot_updateLocalState)

theorem rejected_push_rolls_back_witness:
  "postAnswers 120 (Status ''unread'') (itemIdOf lengthHash (ItemId ''42'')) ''read'' = (120, Status ''unread'') \<and>
   ''unread'' \<noteq> ''read'' \<and>
   \<not> isRead lengthHash (ItemId ''42'')
       (readItems (markRead lengthHash (postAnswers 120 (Status ''unread'')) (ItemId ''42'') browserStore)) \<and>
   syncQueue (markRead lengthHash (postAnswers 120 (Status ''unread'')) (ItemId ''42'') browserStore) = [] \<and>
   readItemsSlot (markRead lengthHash (postAnswers 120 (Status ''unread'')) (ItemId ''42'') browserStore) =
     Some (Json (JArr [])) \<and>
   requests (markRead lengthHash (postAnswers 120 (Status ''unread'')) (ItemId ''42'') browserStore) =
     [POST ''42'' ''read'']"
  using rejected_push_rolls_back
          [of "postAnswers 120 (Status ''unread'')" lengthHash "ItemId ''42''" 120 "''unread''" browserStore]
  by (simp add: postAnswers_def browserStore_def markRead_def markRead_resolve_def
        updateLocalState_def saveToLocalStorage_def map_has_def map_delete_def storableArray_def
        await_def request_def markRead_begin_def Let_def)

text \<open>
  C3, as stated, fails: after \<open>markRead\<close>, \<open>markUnread\<close> and \<open>markRead\<close> again on one
  id, all before the first push is answered, the id is read; when the first push then
  resolves with \<open>unread\<close>, the id is removed, against the newest mark.
\<close>

theorem stale_rollback_overwrites_newer_mark:
  "map_has (readItems (markRead_begin ''42'' (markUnread_begin ''42'' (markRead_begin ''42'' browserStore)))) ''42'' \<and>
   \<not> map_has (readItems (markRead_resolve ''42'' (Status ''unread'')
       (markRead_begin ''42'' (markUnread_begin ''42'' (markRead_begin ''42'' browserStore))))) ''42''"
  by (simp add: resolve_rollback)

text \<open>
  C3, amended. Each mark operation sets the id's state at once: read after the
  synchronous part of \<open>markRead\<close>, unread after that of \<open>markUnread\<close>. The resolution
  of a push compares the confirmed status with the status its own call asked for, not
  with the current state: when the push of \<open>markRead\<close> resolves with a status other
  than \<open>read\<close> the id is unread afterwards, and when the push of \<open>markUnread\<close> resolves
  with a status other than \<open>unread\<close> the id is read afterwards, whatever state newer
  operations have left; a resolution with the status asked for changes nothing, and a
  push that throws leaves the map as it is.
\<close>

theorem push_resolution_decided_by_own_request:
  "map_has (readItems (markRead_begin itemId s)) itemId \<and>
   \<not> map_has (readItems (markUnread_begin itemId s)) itemId \<and>
   (status \<noteq> ''read'' \<longrightarrow> \<not> map_has (readItems (markRead_resolve itemId (Status status) s)) itemId) \<and>
   (status \<noteq> ''unread'' \<longrightarrow> map_has (readItems (markUnread_resolve itemId (Status status) s)) itemId) \<and>
   markRead_resolve itemId (Status ''read'') s = s \<and>
   markUnread_resolve itemId (Status ''unread'') s = s \<and>
   readItems (markRead_resolve itemId Throws s) = readItems s \<and>
   readItems (markUnread_resolve itemId Throws s) = readItems s"
  by (simp add: resolve_rollback resolve_confirmed resolve_Throws_readItems)

theorem push_resolution_decided_by_own_request_witness:
  "''deleted'' \<noteq> ''read'' \<and> ''deleted'' \<noteq> ''unread'' \<and>
   \<not> map_has (readItems (markRead_resolve ''42'' (Status ''deleted'') (markRead_begin ''42'' browserStore))) ''42'' \<and>
   map_has (readItems (markUnread_resolve ''42'' (Status ''deleted'') (markUnread_begin ''42'' browserStore))) ''42''"
  using push_resolution_decided_by_own_request [of "''42''" "markRead_begin ''42'' browserStore" "''deleted''"]
        push_resolution_decided_by_own_request [of "''42''" "markUnread_begin ''42'' browserStore" "''deleted''"]
  by simp




lemma sync_throttled_noop:
  "hasWindow s \<Longrightarrow> hasLocalStorage s \<Longrightarrow> syncTimestampSlot s = Some (TsNumber lastSync) \<Longrightarrow>
   now s - lastSync \<le> SYNC_INTERVAL \<Longrightarrow> syncWithBackend backend itemId s = s"
  by (simp add: syncWithBackend_def shouldSync_def)

lemma syncWithBackend_success:
  "shouldSync s \<Longrightarrow> \<not> setItemThrows s \<Longrightarrow> backend itemId = (d, Status status) \<Longrightarrow>
   syncTimestampSlot (syncWithBackend backend itemId s) = Some (TsNumber (now s + int d)) \<and>
   now (syncWithBackend backend itemId s) = now s + int d"
  by (simp add: syncWithBackend_def syncWithBackend_resolve_def updateSyncTimestamp_def Let_def
        shouldSync_def split: if_splits)

lemma syncWithBackend_split:
  "syncWithBackend backend itemId s =
     (case syncWithBackend_begin itemId s of
        None \<Rightarrow> s
      | Some s1 \<Rightarrow>
          syncWithBackend_resolve itemId (snd (backend itemId)) (await (fst (backend itemId)) s1))"
  by (simp add: syncWithBackend_def syncWithBackend_begin_def split: prod.splits)

lemma shouldSync_request [simp]: "shouldSync (request r s) = shouldSync s"
  by (simp add: shouldSync_def split: option.splits ts_text.splits)

text \<open>
  C8, as stated, fails when the two calls overlap: the timestamp is written only after
  the backend has answered, so a second \<open>sync\<close> started while the first is awaiting
  its answer passes the throttle too, and two pulls are made within the interval.
\<close>

theorem overlapping_syncs_pull_twice:
  "syncWithBackend_begin ''42'' browserStore = Some (request (GET ''42'') browserStore) \<and>
   syncWithBackend_begin ''42'' (request (GET ''42'') browserStore) =
     Some (request (GET ''42'') (request (GET ''42'') browserStore)) \<and>
   requests
     (syncWithBackend_resolve ''42'' (Status ''read'')
       (await 10
         (syncWithBackend_resolve ''42'' (Status ''read'')
           (await 80 (request (GET ''42'') (request (GET ''42'') browserStore)))))) =
     [GET ''42'', GET ''42'']"
  by (simp add: syncWithBackend_begin_def shouldSync_def browserStore_def)

text \<open>
  C8, amended. A \<open>sync\<close> called while no more than the sync interval has passed since
  the stored SyncTimestamp returns the state as it is: no pull, no change of the map,
  no new timestamp. So a \<open>sync\<close> whose pull succeeds, followed after its return and
  within the interval by a second \<open>sync\<close>, makes one pull in all.
\<close>

theorem sync_twice_one_pull:
  "(hasWindow s \<and> hasLocalStorage s \<and> syncTimestampSlot s = Some (TsNumber lastSync) \<and>
    now s - lastSync \<le> SYNC_INTERVAL \<longrightarrow> sync backend itemId s = s) \<and>
   (shouldSync s \<and> \<not> setItemThrows s \<and> backend itemId = (d, Status status) \<and>
    int elapsed \<le> SYNC_INTERVAL \<longrightarrow>
      sync backend' itemId (await elapsed (sync backend itemId s)) = await elapsed (sync backend itemId s) \<and>
      requests (sync backend' itemId (await elapsed (sync backend itemId s))) = requests s @ [GET itemId])"
proof (intro conjI impI)
  assume "hasWindow s \<and> hasLocalStorage s \<and> syncTimestampSlot s = Some (TsNumber lastSync) \<and>
    now s - lastSync \<le> SYNC_INTERVAL"
  then show "sync backend itemId s = s"
    by (simp add: sync_def sync_throttled_noop)
next
  assume a: "shouldSync s \<and> \<not> setItemThrows s \<and> backend itemId = (d, Status status) \<and>
    int elapsed \<le> SYNC_INTERVAL"
  let ?s1 = "syncWithBackend backend itemId s"
  from a have env: "hasWindow s" "hasLocalStorage s"
    by (auto simp: shouldSync_def split: if_splits)
  from a have ts: "syncTimestampSlot ?s1 = Some (TsNumber (now s + int d))" "now ?s1 = now s + int d"
    using syncWithBackend_success [of s backend itemId d status] by simp_all
  have noop: "syncWithBackend backend' itemId (await elapsed ?s1) = await elapsed ?s1"
    by (rule sync_throttled_noop [where lastSync = "now s + int d"]) (use a env ts in simp_all)
  then show "sync backend' itemId (await elapsed (sync backend itemId s)) = await elapsed (sync backend itemId s)"
    by (simp add: sync_def)
  from a show "requests (sync backend' itemId (await elapsed (sync backend itemId s))) = requests s @ [GET itemId]"
    by (simp add: sync_def noop requests_syncWithBackend)
qed

theorem sync_twice_one_pull_witness:
  "shouldSync browserStore \<and> \<not> setItemThrows browserStore \<and>
   getAnswers 80 (Status ''read'') ''42'' = (80, Status ''read'') \<and>
   int 60000 \<le> SYNC_INTERVAL \<and>
   sync (getAnswers 80 (Status ''unread'')) ''42''
     (await 60000 (sync (getAnswers 80 (Status ''read'')) ''42'' browserStore)) =
   await 60000 (sync (getAnswers 80 (Status ''read'')) ''42'' browserStore) \<and>
   requests (sync (getAnswers 80 (Status ''unread'')) ''42''
     (await 60000 (sync (getAnswers 80 (Status ''read'')) ''42'' browserStore))) = [GET ''42'']"
proof -
  have h: "shouldSync browserStore \<and> \<not> setItemThrows browserStore \<and>
      getAnswers 80 (Status ''read'') ''42'' = (80, Status ''read'') \<and> int 60000 \<le> SYNC_INTERVAL"
    by (simp add: getAnswers_def browserStore_def shouldSync_def SYNC_INTERVAL_def)
  have e: "requests browserStore = []"
    by (simp add: browserStore_def)
  from h e
    sync_twice_one_pull
      [where s = browserStore and backend = "getAnswers 80 (Status ''read'')" and itemId = "''42''"
         and d = 80 and status = "''read''" and elapsed = 60000
         and backend' = "getAnswers 80 (Status ''unread'')" and lastSync = 0]
  show ?thesis by auto
qed

text \<open>
  C9, as stated, fails on the empty string, which is text that does not deserialize:
  the store starts empty, but the slot is kept and nothing is logged.
\<close>

theorem createReadItemsStore_empty_text_kept:
  "readItemsSlot (createReadItemsStore (browserStore\<lparr>readItemsSlot := Some (Unparseable [])\<rparr>))
     = Some (Unparseable []) \<and>
   console (createReadItemsStore (browserStore\<lparr>readItemsSlot := Some (Unparseable [])\<rparr>)) = []"
  by (simp add: createReadItemsStore_def browserStore_def)

text \<open>
  C9, amended. In a browser, when the read-items slot holds a non-empty text that
  \<open>JSON.parse\<close> rejects, or the text of a JSON value that is not an array of
  2-element arrays, the store starts with an empty map, the slot is removed and one
  line is logged: an error for text that does not parse, a warning for a value of the
  wrong shape. Creating the store returns normally.
\<close>

theorem createReadItemsStore_malformed:
  "hasWindow e \<and> hasLocalStorage e \<and> readItemsSlot e = Some storedData \<and> truthy storedData \<and>
   (case storedData of Unparseable t \<Rightarrow> True | Json parsed \<Rightarrow> \<not> valid_format parsed) \<longrightarrow>
     readItems (createReadItemsStore e) = [] \<and>
     readItemsSlot (createReadItemsStore e) = None \<and>
     console (createReadItemsStore e) = console e @
       [case storedData of
          Unparseable t \<Rightarrow> (Error, ''Failed to load/parse read items from localStorage:'')
        | Json parsed \<Rightarrow> (Warn, ''Invalid read items format in localStorage. Clearing.'')]"
  by (cases storedData) (auto simp: createReadItemsStore_def console_log_def Let_def)

theorem createReadItemsStore_malformed_witness:
  "truthy (Json (JStr ''not-an-array'')) \<and> \<not> valid_format (JStr ''not-an-array'') \<and>
   readItems (createReadItemsStore (browserStore\<lparr>readItemsSlot := Some (Json (JStr ''not-an-array''))\<rparr>)) = [] \<and>
   readItemsSlot (createReadItemsStore (browserStore\<lparr>readItemsSlot := Some (Json (JStr ''not-an-array''))\<rparr>)) = None \<and>
   console (createReadItemsStore (browserStore\<lparr>readItemsSlot := Some (Json (JStr ''not-an-array''))\<rparr>)) =
     [(Warn, ''Invalid read items format in localStorage. Clearing.'')]"
  using createReadItemsStore_malformed
          [of "browserStore\<lparr>readItemsSlot := Some (Json (JStr ''not-an-array''))\<rparr>" "Json (JStr ''not-an-array'')"]
  by (simp add: browserStore_def valid_format_def)

text \<open>
  C1. The code at a failing input: one id queued and a SyncTimestamp stored one second
  ago, as after a successful \<open>sync\<close> followed by a \<open>markRead\<close> whose push failed. The
  drain makes no pull for the id: the throttle suppresses the retry.
\<close>

theorem drain_skips_pull_when_throttled:
  "''42'' \<in> set (syncQueue (browserStore\<lparr>syncTimestampSlot := Some (TsNumber 1699999999000), syncQueue := [''42'']\<rparr>)) \<and>
   requests (processSyncQueue (getAnswers 80 (Status ''read''))
     (browserStore\<lparr>syncTimestampSlot := Some (TsNumber 1699999999000), syncQueue := [''42'']\<rparr>)) = []"
  by (simp add: processSyncQueue_def syncWithBackend_def shouldSync_def browserStore_def SYNC_INTERVAL_def)

text \<open>
  In general the drain goes through the throttled \<open>syncWithBackend\<close> for every id: among
  the requests issued during the drain there is a pull for a queued id exactly when
  \<open>shouldSync\<close> holds in the state reached when its turn comes.
\<close>

lemma requests_fold_sync_append:
  "\<exists>new. requests (fold (syncWithBackend backend) xs s) = requests s @ new \<and>
         set new \<subseteq> GET ` set xs"
proof (induction xs arbitrary: s)
  case Nil
  show ?case by simp
next
  case (Cons a xs)
  let ?t = "syncWithBackend backend a s"
  from Cons.IH [of ?t] obtain new where
    n: "requests (fold (syncWithBackend backend) xs ?t) = requests ?t @ new" "set new \<subseteq> GET ` set xs"
    by blast
  let ?new = "(if shouldSync s then [GET a] else []) @ new"
  from n have "requests (fold (syncWithBackend backend) (a # xs) s) = requests s @ ?new"
    by (simp add: requests_syncWithBackend)
  moreover from n have "set ?new \<subseteq> GET ` set (a # xs)"
    by auto
  ultimately show ?case by blast
qed

lemma drain_pull_iff_throttle_open:
  assumes "distinct (syncQueue s)" and "itemId \<in> set (syncQueue s)"
  shows "GET itemId \<in> set (drop (length (requests s)) (requests (processSyncQueue backend s))) \<longleftrightarrow>
         shouldSync (stateAtTurn backend itemId s)"
proof -
  let ?f = "syncWithBackend backend"
  let ?s0 = "s\<lparr>syncQueue := []\<rparr>"
  from assms(2) obtain pre post where q: "syncQueue s = pre @ itemId # post" and pre: "itemId \<notin> set pre"
    by (auto dest: split_list_first)
  from assms(1) q have post: "itemId \<notin> set post"
    by auto
  from pre have "\<And>j. j \<in> set pre \<Longrightarrow> j \<noteq> itemId"
    by auto
  then have tw: "takeWhile (\<lambda>j. j \<noteq> itemId) (syncQueue s) = pre"
    by (simp add: q)
  let ?t = "fold ?f pre ?s0"
  have t: "stateAtTurn backend itemId s = ?t"
    by (simp add: stateAtTurn_def tw)
  have run: "processSyncQueue backend s = fold ?f post (?f itemId ?t)"
    by (simp add: processSyncQueue_def q)
  from requests_fold_sync_append [of backend pre ?s0] obtain new1 where
    n1: "requests ?t = requests s @ new1" "set new1 \<subseteq> GET ` set pre"
    by auto
  from requests_fold_sync_append [of backend post "?f itemId ?t"] obtain new2 where
    n2: "requests (fold ?f post (?f itemId ?t)) = requests (?f itemId ?t) @ new2"
      "set new2 \<subseteq> GET ` set post"
    by auto
  from n1 n2 have "drop (length (requests s)) (requests (processSyncQueue backend s)) =
      new1 @ (if shouldSync ?t then [GET itemId] else []) @ new2"
    by (simp add: run requests_syncWithBackend)
  moreover from n1 pre have "GET itemId \<notin> set new1"
    by auto
  moreover from n2 post have "GET itemId \<notin> set new2"
    by auto
  ultimately show ?thesis
    by (simp add: t)
qed

text \<open>
  A pull that throws during a drain puts the id back: the path the throttled return
  does not take.
\<close>

lemma syncQueue_fold_sync_mono:
  "set (syncQueue s) \<subseteq> set (syncQueue (fold (syncWithBackend backend) xs s))"
proof (induction xs arbitrary: s)
  case Nil
  show ?case by simp
next
  case (Cons a xs)
  have "set (syncQueue (syncWithBackend backend a s))
          \<subseteq> set (syncQueue (fold (syncWithBackend backend) xs (syncWithBackend backend a s)))"
    by (rule Cons.IH)
  moreover have "set (syncQueue s) \<subseteq> set (syncQueue (syncWithBackend backend a s))"
    by (auto simp: syncQueue_syncWithBackend)
  ultimately show ?case by auto
qed

lemma drain_requeues_thrown_pull:
  assumes "itemId \<in> set (syncQueue s)"
    and "shouldSync (stateAtTurn backend itemId s)"
    and "snd (backend itemId) = Throws"
  shows "itemId \<in> set (syncQueue (processSyncQueue backend s))"
proof -
  let ?f = "syncWithBackend backend"
  from assms(1) obtain pre post where q: "syncQueue s = pre @ itemId # post" and pre: "itemId \<notin> set pre"
    by (auto dest: split_list_first)
  from pre have "\<And>j. j \<in> set pre \<Longrightarrow> j \<noteq> itemId"
    by auto
  then have tw: "takeWhile (\<lambda>j. j \<noteq> itemId) (syncQueue s) = pre"
    by (simp add: q)
  let ?t = "fold ?f pre (s\<lparr>syncQueue := []\<rparr>)"
  have t: "stateAtTurn backend itemId s = ?t"
    by (simp add: stateAtTurn_def tw)
  with assms(2,3) have "itemId \<in> set (syncQueue (?f itemId ?t))"
    by (simp add: syncQueue_syncWithBackend)
  moreover have "set (syncQueue (?f itemId ?t)) \<subseteq> set (syncQueue (fold ?f post (?f itemId ?t)))"
    by (rule syncQueue_fold_sync_mono)
  moreover have "processSyncQueue backend s = fold ?f post (?f itemId ?t)"
    by (simp add: processSyncQueue_def q)
  ultimately show ?thesis
    by auto
qed

text \<open>
  C2. The code at a failing input: two ids queued, no SyncTimestamp, the backend
  answering \<open>read\<close>. The pull for the first id succeeds and stores the timestamp; the
  second id is then throttled, no pull is made for it, and the drain ends with an empty
  queue, the second id lost.
\<close>

theorem drain_drops_throttled_id:
  "syncQueue (browserStore\<lparr>syncQueue := [''a'', ''b'']\<rparr>) = [''a'', ''b''] \<and>
   requests (processSyncQueue (getAnswers 80 (Status ''read'')) (browserStore\<lparr>syncQueue := [''a'', ''b'']\<rparr>))
     = [GET ''a''] \<and>
   syncQueue (processSyncQueue (getAnswers 80 (Status ''read'')) (browserStore\<lparr>syncQueue := [''a'', ''b'']\<rparr>))
     = []"
  by (simp add: processSyncQueue_def browserStore_def getAnswers_def syncWithBackend_def
        syncWithBackend_resolve_def updateSyncTimestamp_def shouldSync_def SYNC_INTERVAL_def
        Let_def updateLocalState_def saveToLocalStorage_def map_has_def await_def request_def)

lemma sortedKeys_spec:
  "distinct (map fst ls) \<Longrightarrow> sortedKeys ls = sorted_list_of_set (dom (map_of ls))"
  by (simp add: sortedKeys_def dom_map_of_conv_image_fst sorted_list_of_set_sort_remdups
        distinct_remdups_id flip: set_map)

lemma label_at_spec: "key \<in> set (map fst ls) \<Longrightarrow> label_at ls key = the (map_of ls key)"
  by (auto simp: label_at_def map_of_eq_None_iff split: option.splits)

lemma combinedString_spec:
  assumes "distinct (map fst ls)"
  shows "combinedString ls = spec_canonicalString (map_of ls)"
proof -
  have "map (\<lambda>key. key @ ''='' @ label_at ls key) (sortedKeys ls) =
        map (\<lambda>k. k @ ''='' @ the (map_of ls k)) (sortedKeys ls)"
    by (rule map_cong) (simp_all add: sortedKeys_def label_at_spec)
  then show ?thesis
    unfolding combinedString_def spec_canonicalString_def sortedKeys_spec [OF assms, symmetric]
    by (simp only:)
qed

text \<open>
  C7. \<open>getFeedItemId\<close> returns the string form of the backend id when there is one.
  For a label object (unique keys) it agrees with the specification's resolver on the
  label mapping: the decimal string of the hash of the \<open>key=value\<close> pairs joined by
  \<open>&\<close> over the sorted keys. Hence two items with equal content, the same id or the
  same label mapping in any insertion order, get equal ids; and on an empty label set
  the empty string is hashed. The function is total.
\<close>

theorem getFeedItemId_spec:
  "(feedId feed = Some backendId \<longrightarrow> getFeedItemId simpleHash feed = id_toString backendId) \<and>
   (distinct (map fst (labels feed)) \<longrightarrow>
      getFeedItemId simpleHash feed = spec_resolveId simpleHash (feedId feed) (map_of (labels feed))) \<and>
   (feedId feed = feedId feed' \<and>
    (feedId feed = None \<longrightarrow>
       distinct (map fst (labels feed)) \<and> distinct (map fst (labels feed')) \<and>
       set (labels feed) = set (labels feed')) \<longrightarrow>
      getFeedItemId simpleHash feed = getFeedItemId simpleHash feed') \<and>
   (feedId feed = None \<and> labels feed = [] \<longrightarrow>
      getFeedItemId simpleHash feed = toString (simpleHash []))"
proof (intro conjI impI)
  assume "feedId feed = Some backendId"
  then show "getFeedItemId simpleHash feed = id_toString backendId"
    by (simp add: getFeedItemId_def)
next
  assume "distinct (map fst (labels feed))"
  then show "getFeedItemId simpleHash feed = spec_resolveId simpleHash (feedId feed) (map_of (labels feed))"
    by (simp add: getFeedItemId_def spec_resolveId_def combinedString_spec split: option.splits)
next
  assume a: "feedId feed = feedId feed' \<and>
    (feedId feed = None \<longrightarrow>
       distinct (map fst (labels feed)) \<and> distinct (map fst (labels feed')) \<and>
       set (labels feed) = set (labels feed'))"
  show "getFeedItemId simpleHash feed = getFeedItemId simpleHash feed'"
  proof (cases "feedId feed")
    case None
    with a have "map_of (labels feed) = map_of (labels feed')"
      by (simp add: map_of_inject_set)
    with a None show ?thesis
      by (simp add: getFeedItemId_def combinedString_spec)
  next
    case (Some i)
    with a have "feedId feed' = Some i"
      by simp
    with Some show ?thesis
      by (simp add: getFeedItemId_def)
  qed
next
  assume "feedId feed = None \<and> labels feed = []"
  then show "getFeedItemId simpleHash feed = toString (simpleHash [])"
    by (simp add: getFeedItemId_def combinedString_def sortedKeys_def)
qed

theorem getFeedItemId_spec_witness:
  "feedId \<lparr>feedId = None, labels = [(''title'', ''B''), (''author'', ''x'')], time = ''t''\<rparr> =
     feedId \<lparr>feedId = None, labels = [(''author'', ''x''), (''title'', ''B'')], time = ''t''\<rparr> \<and>
   distinct (map fst [(''title'', ''B''), (''author'', ''x'')]) \<and>
   distinct (map fst [(''author'', ''x''), (''title'', ''B'')]) \<and>
   set [(''title'', ''B''), (''author'', ''x'')] = set [(''author'', ''x''), (''title'', ''B'')] \<and>
   getFeedItemId lengthHash \<lparr>feedId = None, labels = [(''title'', ''B''), (''author'', ''x'')], time = ''t''\<rparr> =
     getFeedItemId lengthHash \<lparr>feedId = None, labels = [(''author'', ''x''), (''title'', ''B'')], time = ''t''\<rparr> \<and>
   getFeedItemId lengthHash \<lparr>feedId = None, labels = [(''title'', ''B''), (''author'', ''x'')], time = ''t''\<rparr> =
     ''16'' \<and>
   getFeedItemId lengthHash \<lparr>feedId = Some (IdNumber 42), labels = [], time = ''t''\<rparr> = ''42''"
proof -
  let ?f = "\<lparr>feedId = None, labels = [(''title'', ''B''), (''author'', ''x'')], time = ''t''\<rparr>"
  let ?g = "\<lparr>feedId = None, labels = [(''author'', ''x''), (''title'', ''B'')], time = ''t''\<rparr>"
  have h: "feedId ?f = feedId ?g \<and> distinct (map fst (labels ?f)) \<and> distinct (map fst (labels ?g)) \<and>
      set (labels ?f) = set (labels ?g)"
    by auto
  have v: "getFeedItemId lengthHash ?f = ''16''"
    by code_simp
  have w: "getFeedItemId lengthHash \<lparr>feedId = Some (IdNumber 42), labels = [], time = ''t''\<rparr> = ''42''"
    by code_simp
  have eq: "getFeedItemId lengthHash ?f = getFeedItemId lengthHash ?g"
    by (rule mp [OF conjunct1 [OF conjunct2 [OF conjunct2
          [OF getFeedItemId_spec [of ?f "IdNumber 0" lengthHash ?g]]]]])
       (use h in blast)
  from h have h': "feedId ?f = feedId ?g" "distinct (map fst [(''title'', ''B''), (''author'', ''x'')])"
    "distinct (map fst [(''author'', ''x''), (''title'', ''B'')])"
    "set [(''title'', ''B''), (''author'', ''x'')] = set [(''author'', ''x''), (''title'', ''B'')]"
    by simp_all
  from h' eq v w show ?thesis
    by (intro conjI)
qed

end
